theory Spec2Isabelle
  imports Complex_Main "HOL-Library.Multiset"
begin

section \<open>Heritaguessr: the scoring and session logic of \<^verbatim>\<open>src/App.tsx\<close>\<close>

text \<open>
  The embedding follows \<^verbatim>\<open>src/App.tsx\<close>. A JavaScript \<^verbatim>\<open>number\<close> that holds a
  coordinate, an angle or a distance is a \<^typ>\<open>real\<close>: the arithmetic and the functions
  of \<^verbatim>\<open>Math\<close> are the exact ones, without the rounding of IEEE doubles. A number that
  holds a count or a rounded score is a \<^typ>\<open>nat\<close> or an \<^typ>\<open>int\<close>.
\<close>

subsection \<open>Data model\<close>

text \<open>\<^verbatim>\<open>interface Location { name: string; lat: number; lon: number; }\<close>\<close>

record Location =
  name :: string
  lat :: real
  lon :: real

text \<open>The literal handed to \<^verbatim>\<open>shuffleArray\<close> at module load (lines 22 to 28).\<close>

definition catalog :: "Location list" where
  "catalog =
    [\<lparr>name = ''Fort Louisbourg'', lat = 45.8922, lon = -59.9855\<rparr>,
     \<lparr>name = ''Start of St. Lawrence Seaway'', lat = 42.891411, lon = -79.251964\<rparr>,
     \<lparr>name = ''Rideau Canal'', lat = 45.422164, lon = -75.691664\<rparr>,
     \<lparr>name = ''Plains of Abraham'', lat = 46.8015, lon = -71.2201\<rparr>,
     \<lparr>name = ''End of St. Lawrence Seaway'', lat = 45.508888, lon = -73.561668\<rparr>]"

subsection \<open>\<^verbatim>\<open>shuffleArray\<close>\<close>

text \<open>
  \<^verbatim>\<open>Math.random()\<close> is an explicit source of draws: \<open>rnd k\<close> is the value of the
  \<open>k\<close>-th call, counted from 0. The loop variable \<open>i\<close> runs from
  \<^verbatim>\<open>shuffled.length - 1\<close> down to 1; on the empty array the source starts at \<open>-1\<close> and the
  model at \<open>0\<close>, and neither runs the body. \<^verbatim>\<open>Math.random()\<close> returns a number in
  \<open>[0, 1)\<close>; for such a draw \<open>j \<le> i\<close> and both indices of the exchange are inside the
  array, which is the only case the list operations of the model are meant for.
\<close>

definition swap :: "'a list \<Rightarrow> nat \<Rightarrow> nat \<Rightarrow> 'a list" where
  \<comment> \<open>\<^verbatim>\<open>[shuffled[i], shuffled[j]] = [shuffled[j], shuffled[i]]\<close>: the right-hand side is
      read first, then index \<open>i\<close> is written, then index \<open>j\<close>.\<close>
  "swap shuffled i j = (shuffled[i := shuffled ! j])[j := shuffled ! i]"

fun shuffle_loop :: "(nat \<Rightarrow> real) \<Rightarrow> nat \<Rightarrow> nat \<Rightarrow> 'a list \<Rightarrow> 'a list" where
  "shuffle_loop rnd k i shuffled =
     (if 0 < i
      then (let j = nat \<lfloor>rnd k * real (i + 1)\<rfloor>
            in shuffle_loop rnd (k + 1) (i - 1) (swap shuffled i j))
      else shuffled)"

declare shuffle_loop.simps [simp del]

definition shuffleArray :: "(nat \<Rightarrow> real) \<Rightarrow> 'a list \<Rightarrow> 'a list" where
  "shuffleArray rnd array = shuffle_loop rnd 0 (length array - 1) array"

subsection \<open>\<^verbatim>\<open>haversineDistance\<close> and \<^verbatim>\<open>calculateScore\<close>\<close>

text \<open>
  \<^verbatim>\<open>Math.atan2(y, x)\<close> on the reals, by the quadrant of \<open>(x, y)\<close>. The source's
  \<^verbatim>\<open>\<Delta>\<lambda>\<close> is \<open>\<Delta>lam\<close> here. \<^verbatim>\<open>Math.sqrt\<close> is \<open>sqrt\<close>: the two arguments
  \<open>a\<close> and \<open>1 - a\<close> are not negative when both latitudes are within \<open>[-90, 90]\<close>, and a
  negative argument (\<^verbatim>\<open>NaN\<close> in the source) is outside the model.
\<close>

definition atan2 :: "real \<Rightarrow> real \<Rightarrow> real" where
  "atan2 y x =
     (if 0 < x then arctan (y / x)
      else if x < 0 then (if 0 \<le> y then arctan (y / x) + pi else arctan (y / x) - pi)
      else if 0 < y then pi / 2
      else if y < 0 then - pi / 2
      else 0)"

definition haversineDistance :: "real \<Rightarrow> real \<Rightarrow> real \<Rightarrow> real \<Rightarrow> real" where
  "haversineDistance lat1 lon1 lat2 lon2 =
     (let R = 6371000;
          \<phi>1 = lat1 * pi / 180;
          \<phi>2 = lat2 * pi / 180;
          \<Delta>\<phi> = (lat2 - lat1) * pi / 180;
          \<Delta>lam = (lon2 - lon1) * pi / 180;
          a = sin (\<Delta>\<phi> / 2) * sin (\<Delta>\<phi> / 2) +
              cos \<phi>1 * cos \<phi>2 *
              sin (\<Delta>lam / 2) * sin (\<Delta>lam / 2);
          c = 2 * atan2 (sqrt a) (sqrt (1 - a))
      in R * c / 1000)"

text \<open>
  \<^verbatim>\<open>Math.round\<close> rounds to the nearest integer, a tie towards \<open>+\<infinity>\<close>.
\<close>

definition Math_round :: "real \<Rightarrow> int" where
  "Math_round x = \<lfloor>x + 1 / 2\<rfloor>"

text \<open>
  \<^verbatim>\<open>function calculateScore(distance: number, size = 3176.862)\<close>: the second argument
  is optional, \<open>None\<close> is a call that leaves it out.
\<close>

definition calculateScore :: "real \<Rightarrow> real option \<Rightarrow> int" where
  "calculateScore distance size_arg =
     (let size = (case size_arg of None \<Rightarrow> 3176.862 | Some s \<Rightarrow> s);
          score = 50 * exp (- 10 * distance / size)
      in Math_round score)"

subsection \<open>The session state of \<^verbatim>\<open>App\<close> and \<^verbatim>\<open>handleGuess\<close>\<close>

text \<open>
  The \<^verbatim>\<open>score\<close> cell is a \<^verbatim>\<open>number | string\<close>. The template literal of the final
  summary turns a number into its decimal digits (the form JavaScript gives an integer
  below \<open>10^21\<close> in absolute value).
\<close>

datatype display = Num int | Str string

definition digit_char :: "nat \<Rightarrow> char" where
  "digit_char d = ''0123456789'' ! d"

fun digits :: "nat \<Rightarrow> string" where
  "digits n = (if n < 10 then [digit_char n] else digits (n div 10) @ [digit_char (n mod 10)])"

declare digits.simps [simp del]

definition Number_toString :: "int \<Rightarrow> string" where
  "Number_toString n = (if n < 0 then CHR ''-'' # digits (nat (- n)) else digits (nat n))"

record AppState =
  currentIndex :: nat
  score :: display
  totalScore :: int
  scoreAnimation :: string
  isDone :: nat
  userGuess :: "(real \<times> real) option"
  showCorrect :: bool
  correctLocation :: "Location option"
  showRules :: bool

definition initialState :: AppState where
  "initialState =
     \<lparr>currentIndex = 0, score = Str ''0'', totalScore = 0, scoreAnimation = '''',
      isDone = 0, userGuess = None, showCorrect = False, correctLocation = None,
      showRules = True\<rparr>"

text \<open>
  Reading \<^verbatim>\<open>correct.lat\<close> when \<^verbatim>\<open>answers[currentIndex]\<close> is \<^verbatim>\<open>undefined\<close> throws a
  \<^verbatim>\<open>TypeError\<close>.
\<close>

datatype error = TypeError

text \<open>
  One call of \<^verbatim>\<open>handleGuess\<close> on the state of the current render, returning the state
  after the queued updates are applied. \<open>answers\<close> is the shuffled catalog.
\<close>

definition handleGuess :: "Location list \<Rightarrow> AppState \<Rightarrow> real \<Rightarrow> real \<Rightarrow> error + AppState" where
  "handleGuess answers s playerLat playerLon =
     (if isDone s = 1 then Inr s
      else if length answers \<le> currentIndex s then Inl TypeError
      else
        (let correct = answers ! currentIndex s;
             distance = haversineDistance (lat correct) (lon correct) playerLat playerLon;
             roundScore = calculateScore distance None;
             s1 = s\<lparr>userGuess := Some (playerLat, playerLon),
                    correctLocation := Some correct,
                    showCorrect := True,
                    score := Num roundScore,
                    totalScore := totalScore s + roundScore,
                    scoreAnimation := ''score-animation''\<rparr>;
             s2 = (if length answers \<le> currentIndex s + 1
                   then s1\<lparr>isDone := 1,
                           score := Str (''You won with a score of ''
                                         @ Number_toString (totalScore s + roundScore) @ ''!''),
                           scoreAnimation := ''done-animation''\<rparr>
                   else s1);
             s3 = (if currentIndex s + 1 < length answers
                   then s2\<lparr>currentIndex := currentIndex s + 1\<rparr>
                   else s2)
         in Inr s3))"

text \<open>A sequence of clicks, each handled on the state the one before left.\<close>

fun play :: "Location list \<Rightarrow> AppState \<Rightarrow> (real \<times> real) list \<Rightarrow> error + AppState" where
  "play answers s [] = Inr s"
| "play answers s (g # gs) =
     (case handleGuess answers s (fst g) (snd g) of
        Inl e \<Rightarrow> Inl e
      | Inr s' \<Rightarrow> play answers s' gs)"

text \<open>The score of the round with target \<open>answers ! k\<close> for the guess \<open>g\<close>.\<close>

definition roundScoreOf :: "Location list \<Rightarrow> nat \<Rightarrow> real \<times> real \<Rightarrow> int" where
  "roundScoreOf answers k g =
     calculateScore (haversineDistance (lat (answers ! k)) (lon (answers ! k)) (fst g) (snd g)) None"

text \<open>The states a session can be in: the initial one and what a click makes of one.\<close>

inductive reachable :: "Location list \<Rightarrow> AppState \<Rightarrow> bool" for answers where
  reach_init: "reachable answers initialState"
| reach_step: "reachable answers s \<Longrightarrow> handleGuess answers s playerLat playerLon = Inr s'
               \<Longrightarrow> reachable answers s'"

text \<open>
  The invariant of the session: until the session is done, \<open>currentIndex\<close> is an index
  of the shuffled catalog.
\<close>

definition index_valid :: "Location list \<Rightarrow> AppState \<Rightarrow> bool" where
  "index_valid answers s = (isDone s \<noteq> 1 \<longrightarrow> currentIndex s < length answers)"

text \<open>
  The scoring formula in the words of the specification, section 4.2:
  points = round(50 \<open>\<cdot>\<close> e^(\<open>-\<close>10 \<open>\<cdot>\<close> distance / scale)).
\<close>

definition spec_score :: "real \<Rightarrow> real \<Rightarrow> int" where
  "spec_score distance scale = round (50 * exp (- 10 * distance / scale))"

text \<open>
  The term \<open>a\<close> of \<open>haversineDistance\<close> in the scenario of section 8 of the specification,
  target (46.8015, -71.2201) and guess (42.891411, -79.251964), with the differences of
  the coordinates computed and the sign of the two half angles dropped under the squares.
\<close>

definition scenario_a :: real where
  "scenario_a =
     sin (3.910089 * pi / 360) * sin (3.910089 * pi / 360) +
     cos (46.8015 * pi / 180) * cos (42.891411 * pi / 180) *
     sin (8.031864 * pi / 360) * sin (8.031864 * pi / 360)"

section \<open>The shuffle\<close>

lemma length_swap: "length (swap xs i j) = length xs"
  by (simp add: swap_def)

lemma mset_swap_in_range:
  "i < length xs \<Longrightarrow> j < length xs \<Longrightarrow> mset (swap xs i j) = mset xs"
  unfolding swap_def by (simp add: mset_swap)

text \<open>A draw in \<open>[0, 1)\<close> picks an index \<open>j\<close> with \<open>j \<le> i\<close>.\<close>

lemma draw_index_le:
  assumes "0 \<le> r" "r < 1"
  shows "nat \<lfloor>r * real (i + 1)\<rfloor> \<le> i"
proof -
  have "r * real (i + 1) < real (i + 1)"
    using assms by simp
  then have "\<lfloor>r * real (i + 1)\<rfloor> < int (i + 1)"
    by (simp add: floor_less_iff)
  then show ?thesis by linarith
qed

lemma shuffle_loop_mset:
  "(\<forall>k. 0 \<le> rnd k \<and> rnd k < 1) \<Longrightarrow> i < length xs \<or> i = 0 \<Longrightarrow>
     mset (shuffle_loop rnd k i xs) = mset xs"
proof (induction rnd k i xs rule: shuffle_loop.induct)
  case (1 rnd k i shuffled)
  show ?case
  proof (cases "0 < i")
    case False
    then show ?thesis by (simp add: shuffle_loop.simps)
  next
    case True
    define j where "j = nat \<lfloor>rnd k * real (i + 1)\<rfloor>"
    have ne: "i < length shuffled" using True "1.prems"(2) by auto
    have jle: "j \<le> i" unfolding j_def using "1.prems"(1) by (intro draw_index_le) auto
    have sw: "mset (swap shuffled i j) = mset shuffled"
      using ne jle by (simp add: mset_swap_in_range)
    have "mset (shuffle_loop rnd (k + 1) (i - 1) (swap shuffled i j)) = mset (swap shuffled i j)"
    proof (rule "1.IH"[OF True j_def "1.prems"(1)])
      show "i - 1 < length (swap shuffled i j) \<or> i - 1 = 0"
        using ne by (auto simp add: length_swap)
    qed
    then show ?thesis
      using True sw by (subst shuffle_loop.simps) (simp add: j_def Let_def)
  qed
qed

text \<open>
  C8. Whatever the draws of \<^verbatim>\<open>Math.random\<close> (each in \<open>[0, 1)\<close>, as the function
  promises), \<open>shuffleArray\<close> returns a permutation of its input: the same multiset, hence
  the same length and the same number of occurrences of every element, and a catalog
  without repetition comes back without repetition and with the same sites.
\<close>

theorem shuffleArray_permutation:
  assumes "\<forall>k. 0 \<le> rnd k \<and> rnd k < 1"
  shows "mset (shuffleArray rnd array) = mset array
       \<and> length (shuffleArray rnd array) = length array
       \<and> (\<forall>x. count_list (shuffleArray rnd array) x = count_list array x)
       \<and> (distinct array \<longrightarrow>
            distinct (shuffleArray rnd array) \<and> set (shuffleArray rnd array) = set array)"
proof -
  have m: "mset (shuffleArray rnd array) = mset array"
    unfolding shuffleArray_def
    by (rule shuffle_loop_mset[OF assms]) (cases array; simp)
  show ?thesis
    using m mset_eq_length[OF m] mset_eq_setD[OF m] mset_eq_imp_distinct_iff[OF m]
    by (metis count_mset)
qed

theorem shuffleArray_permutation_witness:
  "(\<forall>k::nat. 0 \<le> (if k = 0 then 9 / 10 else if k = 1 then 1 / 10 else (1 / 2 :: real))
        \<and> (if k = 0 then 9 / 10 else if k = 1 then 1 / 10 else (1 / 2 :: real)) < 1)
   \<and> shuffleArray (\<lambda>k. if k = 0 then 9 / 10 else if k = 1 then 1 / 10 else 1 / 2)
        [1, 2, 3, 4, 5 :: nat] = [4, 3, 2, 1, 5]
   \<and> mset (shuffleArray (\<lambda>k. if k = 0 then 9 / 10 else if k = 1 then 1 / 10 else 1 / 2)
        [1, 2, 3, 4, 5 :: nat]) = mset [1, 2, 3, 4, 5]
   \<and> distinct (shuffleArray (\<lambda>k. if k = 0 then 9 / 10 else if k = 1 then 1 / 10 else 1 / 2)
        [1, 2, 3, 4, 5 :: nat])"
proof -
  have h: "\<forall>k::nat. 0 \<le> (if k = 0 then 9 / 10 else if k = 1 then 1 / 10 else (1 / 2 :: real))
        \<and> (if k = 0 then 9 / 10 else if k = 1 then 1 / 10 else (1 / 2 :: real)) < 1"
    by simp
  have e: "shuffleArray (\<lambda>k. if k = 0 then 9 / 10 else if k = 1 then 1 / 10 else 1 / 2)
        [1, 2, 3, 4, 5 :: nat] = [4, 3, 2, 1, 5]"
    by (simp add: shuffleArray_def shuffle_loop.simps swap_def)
  have d: "distinct [1, 2, 3, 4, 5 :: nat]" by simp
  show ?thesis
    using shuffleArray_permutation[OF h, of "[1, 2, 3, 4, 5 :: nat]"] h e d by blast
qed

section \<open>Distance and score\<close>

lemma haversineDistance_self: "haversineDistance la lo la lo = 0"
  by (simp add: haversineDistance_def atan2_def)

lemma calculateScore_zero: "calculateScore 0 None = 50"
  by (simp add: calculateScore_def Math_round_def)

lemma calculateScore_nonneg: "0 \<le> calculateScore d None"
  unfolding calculateScore_def Math_round_def Let_def
  by (simp add: le_floor_iff)

lemma calculateScore_antimono:
  assumes "d1 \<le> d2"
  shows "calculateScore d2 None \<le> calculateScore d1 None"
proof -
  have "- 10 * d2 / 3176.862 \<le> - 10 * d1 / (3176.862::real)"
    using assms by simp
  then have "50 * exp (- 10 * d2 / 3176.862) \<le> 50 * exp (- 10 * d1 / (3176.862::real))"
    by simp
  then show ?thesis
    unfolding calculateScore_def Math_round_def Let_def
    by (simp add: floor_mono)
qed

lemma calculateScore_le_50:
  assumes "0 \<le> d" shows "calculateScore d None \<le> 50"
  using calculateScore_antimono[OF assms] by (simp add: calculateScore_zero)

lemma calculateScore_above_50:
  assumes "d \<le> - 4"
  shows "50 < calculateScore d None"
proof -
  have "0 \<le> - 10 * d / 3176.862" using assms by simp
  have "1 + (- 10 * d / 3176.862) \<le> exp (- 10 * d / 3176.862)"
    by (rule exp_ge_add_one_self)
  moreover have "(101::real) / 100 \<le> 1 + (- 10 * d / 3176.862)"
    using assms by simp
  ultimately have "(101::real) / 100 \<le> exp (- 10 * d / 3176.862)" by linarith
  then have "51 \<le> 50 * exp (- 10 * d / 3176.862) + 1 / 2" by simp
  then have "51 \<le> \<lfloor>50 * exp (- 10 * d / 3176.862) + 1 / 2\<rfloor>"
    by (simp add: le_floor_iff)
  then show ?thesis
    by (simp add: calculateScore_def Math_round_def)
qed

text \<open>
  C3. For every distance \<open>d\<close>, \<open>calculateScore\<close> called without a scale returns
  round(50 \<open>\<cdot>\<close> e^(\<open>-\<close>10 \<open>\<cdot>\<close> d / 3176.862)), the formula of the specification with the default scale;
  and the score of distance 0 is 50.
\<close>

theorem calculateScore_formula: "calculateScore d None = spec_score d 3176.862 \<and> calculateScore 0 None = 50"
  by (simp add: calculateScore_def Math_round_def spec_score_def round_def)

text \<open>
  C4. The score does not increase with the distance: for \<open>0 \<le> d1 \<le> d2\<close> the score of \<open>d2\<close>
  is at most the score of \<open>d1\<close>; and for every \<open>d \<ge> 0\<close> the score lies in \<open>[0, 50]\<close>.
\<close>

theorem calculateScore_monotone_bounded:
  "(0 \<le> d1 \<and> d1 \<le> d2 \<longrightarrow> calculateScore d2 None \<le> calculateScore d1 None)
   \<and> (0 \<le> d \<longrightarrow> 0 \<le> calculateScore d None \<and> calculateScore d None \<le> 50)"
  using calculateScore_antimono calculateScore_nonneg calculateScore_le_50 by blast

theorem calculateScore_monotone_bounded_witness:
  "(0::real) \<le> 0 \<and> (0::real) \<le> 1000
   \<and> calculateScore 1000 None \<le> calculateScore 0 None
   \<and> 0 \<le> calculateScore 1000 None \<and> calculateScore 1000 None \<le> 50"
  using calculateScore_monotone_bounded[of 0 1000 1000] by simp

text \<open>
  C6. The distance from a point to itself is 0, for every coordinate pair; a guess on
  the target (45.422164, -75.691664) has distance 0 and scores 50.
\<close>

theorem haversineDistance_same_point: "haversineDistance la lo la lo = 0
  \<and> haversineDistance 45.422164 (-75.691664) 45.422164 (-75.691664) = 0
  \<and> calculateScore (haversineDistance 45.422164 (-75.691664) 45.422164 (-75.691664)) None = 50"
  by (simp add: haversineDistance_self calculateScore_zero)

text \<open>
  C7. The distance is symmetric: exchanging the two coordinate pairs does not change it.
\<close>

theorem haversineDistance_symmetric: "haversineDistance la1 lo1 la2 lo2 = haversineDistance la2 lo2 la1 lo1"
proof -
  have flip: "sin ((x - y) * pi / 180 / 2) = - sin ((y - x) * pi / 180 / 2)" for x y :: real
  proof -
    have "(x - y) * pi / 180 / 2 = - ((y - x) * pi / 180 / 2)"
      by (simp add: field_simps)
    then show ?thesis by (simp only: sin_minus)
  qed
  note 1 = flip[of la1 la2] and 2 = flip[of lo1 lo2]
  show ?thesis
    unfolding haversineDistance_def Let_def 1 2
    by (simp add: mult.commute)
qed

text \<open>A negative distance close to 0 still scores 50.\<close>

lemma calculateScore_minus_one: "calculateScore (- 1) None = 50"
proof -
  define e where "e = exp (10 / 3176.862 :: real)"
  have x: "- 10 * (- 1) / 3176.862 = (10 / 3176.862 :: real)" by simp
  have "e \<le> 1 + 10 / 3176.862 + (10 / 3176.862)\<^sup>2"
    unfolding e_def by (rule exp_bound) simp_all
  then have u: "e < 1.01"
    by (simp add: power_divide)
  have l: "1 \<le> e" unfolding e_def by simp
  have "\<lfloor>50 * e + 1 / 2\<rfloor> = 50"
    using l u by (intro floor_unique) simp_all
  then show ?thesis
    unfolding calculateScore_def Math_round_def Let_def option.case x e_def by simp
qed

text \<open>
  C10. \<open>calculateScore\<close> does not clamp its result to 50: some negative distance scores
  more than 50, indeed every distance \<open>d \<le> -4\<close> does. The range \<open>[0, 50]\<close> needs the
  precondition \<open>d \<ge> 0\<close>, which the function does not check.
\<close>

theorem calculateScore_not_clamped: "(\<exists>d<0. 50 < calculateScore d None) \<and> (\<forall>d\<le>-4. 50 < calculateScore d None)"
proof -
  have "50 < calculateScore (-4) None" by (rule calculateScore_above_50) simp
  then have "\<exists>d<0. 50 < calculateScore d None" by (intro exI[of _ "-4"]) simp
  then show ?thesis using calculateScore_above_50 by blast
qed

theorem calculateScore_not_clamped_witness: "(- 1000 :: real) \<le> - 4 \<and> 50 < calculateScore (- 1000) None"
  using calculateScore_not_clamped by simp


section \<open>The session\<close>

lemma handleGuess_last:
  assumes "isDone s \<noteq> 1" "currentIndex s + 1 = length answers"
  shows "handleGuess answers s la lo =
     Inr (s\<lparr>userGuess := Some (la, lo),
            correctLocation := Some (answers ! currentIndex s),
            showCorrect := True,
            score := Str (''You won with a score of ''
                @ Number_toString (totalScore s + roundScoreOf answers (currentIndex s) (la, lo)) @ ''!''),
            totalScore := totalScore s + roundScoreOf answers (currentIndex s) (la, lo),
            scoreAnimation := ''done-animation'',
            isDone := 1\<rparr>)"
  using assms by (simp add: handleGuess_def roundScoreOf_def Let_def)

lemma handleGuess_next:
  assumes "isDone s \<noteq> 1" "currentIndex s + 1 < length answers"
  shows "handleGuess answers s la lo =
     Inr (s\<lparr>userGuess := Some (la, lo),
            correctLocation := Some (answers ! currentIndex s),
            showCorrect := True,
            score := Num (roundScoreOf answers (currentIndex s) (la, lo)),
            totalScore := totalScore s + roundScoreOf answers (currentIndex s) (la, lo),
            scoreAnimation := ''score-animation'',
            currentIndex := currentIndex s + 1\<rparr>)"
  using assms by (simp add: handleGuess_def roundScoreOf_def Let_def)

lemma play_from:
  "isDone s \<noteq> 1 \<Longrightarrow> gs \<noteq> [] \<Longrightarrow> currentIndex s + length gs = length answers \<Longrightarrow>
   \<exists>s'. play answers s gs = Inr s' \<and> isDone s' = 1
      \<and> totalScore s' = totalScore s + (\<Sum>k<length gs. roundScoreOf answers (currentIndex s + k) (gs ! k))
      \<and> score s' = Str (''You won with a score of '' @ Number_toString (totalScore s') @ ''!'')"
proof (induction gs arbitrary: s)
  case Nil
  then show ?case by simp
next
  case (Cons g gs)
  show ?case
  proof (cases "gs = []")
    case True
    then have "currentIndex s + 1 = length answers" using Cons.prems by simp
    from handleGuess_last[OF Cons.prems(1) this, of "fst g" "snd g"] True
    show ?thesis by simp
  next
    case False
    then have lt: "currentIndex s + 1 < length answers" using Cons.prems by (cases gs) auto
    define s1 where "s1 = s\<lparr>userGuess := Some (fst g, snd g),
            correctLocation := Some (answers ! currentIndex s),
            showCorrect := True,
            score := Num (roundScoreOf answers (currentIndex s) g),
            totalScore := totalScore s + roundScoreOf answers (currentIndex s) g,
            scoreAnimation := ''score-animation'',
            currentIndex := currentIndex s + 1\<rparr>"
    have step: "handleGuess answers s (fst g) (snd g) = Inr s1"
      using handleGuess_next[OF Cons.prems(1) lt, of "fst g" "snd g"] by (simp add: s1_def)
    have d1: "isDone s1 \<noteq> 1" using Cons.prems(1) by (simp add: s1_def)
    have l1: "currentIndex s1 + length gs = length answers"
      using Cons.prems(3) by (simp add: s1_def)
    from Cons.IH[OF d1 False l1] obtain s' where
      p: "play answers s1 gs = Inr s'" and dn: "isDone s' = 1"
      and tot: "totalScore s' = totalScore s1 + (\<Sum>k<length gs. roundScoreOf answers (currentIndex s1 + k) (gs ! k))"
      and sc: "score s' = Str (''You won with a score of '' @ Number_toString (totalScore s') @ ''!'')"
      by blast
    have "(\<Sum>k<length (g # gs). roundScoreOf answers (currentIndex s + k) ((g # gs) ! k))
        = roundScoreOf answers (currentIndex s) g
          + (\<Sum>k<length gs. roundScoreOf answers (currentIndex s + Suc k) (gs ! k))"
      by (simp add: sum.lessThan_Suc_shift del: sum.lessThan_Suc)
    then have "totalScore s' = totalScore s + (\<Sum>k<length (g # gs). roundScoreOf answers (currentIndex s + k) ((g # gs) ! k))"
      using tot by (simp add: s1_def)
    then show ?thesis using p dn sc step by simp
  qed
qed

lemma handleGuess_preserves:
  assumes "index_valid answers s"
  shows "\<exists>s'. handleGuess answers s la lo = Inr s' \<and> index_valid answers s'"
proof (cases "isDone s = 1")
  case True
  then show ?thesis using assms by (simp add: handleGuess_def)
next
  case False
  then have "currentIndex s < length answers" using assms by (simp add: index_valid_def)
  then consider "currentIndex s + 1 = length answers" | "currentIndex s + 1 < length answers"
    by linarith
  then show ?thesis
  proof cases
    case 1
    show ?thesis unfolding handleGuess_last[OF False 1] by (simp add: index_valid_def)
  next
    case 2
    show ?thesis unfolding handleGuess_next[OF False 2] using 2 by (simp add: index_valid_def)
  qed
qed

lemma reachable_valid:
  assumes "answers \<noteq> []" "reachable answers s"
  shows "index_valid answers s"
  using assms(2)
proof (induction rule: reachable.induct)
  case reach_init
  then show ?case using assms(1) by (simp add: index_valid_def initialState_def)
next
  case (reach_step s playerLat playerLon s')
  then show ?case using handleGuess_preserves[of answers s playerLat playerLon] by auto
qed

lemma play_before_last:
  "isDone s \<noteq> 1 \<Longrightarrow> currentIndex s + length gs < length answers \<Longrightarrow>
   \<exists>s'. play answers s gs = Inr s' \<and> isDone s' = isDone s
      \<and> currentIndex s' = currentIndex s + length gs"
proof (induction gs arbitrary: s)
  case Nil
  then show ?case by simp
next
  case (Cons g gs)
  have lt: "currentIndex s + 1 < length answers" using Cons.prems(2) by simp
  define s1 where "s1 = s\<lparr>userGuess := Some (fst g, snd g),
            correctLocation := Some (answers ! currentIndex s),
            showCorrect := True,
            score := Num (roundScoreOf answers (currentIndex s) (fst g, snd g)),
            totalScore := totalScore s + roundScoreOf answers (currentIndex s) (fst g, snd g),
            scoreAnimation := ''score-animation'',
            currentIndex := currentIndex s + 1\<rparr>"
  have step: "handleGuess answers s (fst g) (snd g) = Inr s1"
    using handleGuess_next[OF Cons.prems(1) lt, of "fst g" "snd g"] by (simp add: s1_def)
  have d1: "isDone s1 \<noteq> 1" "isDone s1 = isDone s" using Cons.prems(1) by (simp_all add: s1_def)
  have l1: "currentIndex s1 + length gs < length answers"
    using Cons.prems(2) by (simp add: s1_def)
  from Cons.IH[OF d1(1) l1] obtain s' where
    "play answers s1 gs = Inr s'" "isDone s' = isDone s1"
    "currentIndex s' = currentIndex s1 + length gs"
    by blast
  then show ?case using step d1(2) by (simp add: s1_def)
qed

text \<open>
  C1. For a catalog of \<open>N \<ge> 1\<close> sites, \<open>N\<close> calls of \<open>handleGuess\<close> from the initial
  state all return, and leave \<open>isDone = 1\<close>, \<open>totalScore\<close> equal to the sum of the \<open>N\<close>
  round scores, and in \<open>score\<close> the final summary, which shows that same total. After
  fewer than \<open>N\<close> calls the session is not done yet, and \<open>currentIndex\<close> is the number of
  calls made.
\<close>

theorem session_complete_after_all_guesses:
  assumes "answers \<noteq> []" "length guesses = length answers"
  shows "(\<exists>s. play answers initialState guesses = Inr s \<and> isDone s = 1
      \<and> totalScore s = (\<Sum>k<length answers. roundScoreOf answers k (guesses ! k))
      \<and> score s = Str (''You won with a score of '' @ Number_toString (totalScore s) @ ''!''))
    \<and> (\<forall>k<length answers. \<exists>s. play answers initialState (take k guesses) = Inr s
          \<and> isDone s = 0 \<and> currentIndex s = k)"
proof -
  have "isDone initialState \<noteq> 1" "guesses \<noteq> []" "currentIndex initialState + length guesses = length answers"
    using assms by (auto simp: initialState_def)
  from play_from[OF this] assms(2)
  have a: "\<exists>s. play answers initialState guesses = Inr s \<and> isDone s = 1
      \<and> totalScore s = (\<Sum>k<length answers. roundScoreOf answers k (guesses ! k))
      \<and> score s = Str (''You won with a score of '' @ Number_toString (totalScore s) @ ''!'')"
    by (simp add: initialState_def)
  have b: "\<exists>s. play answers initialState (take k guesses) = Inr s \<and> isDone s = 0 \<and> currentIndex s = k"
    if "k < length answers" for k
  proof -
    have "isDone initialState \<noteq> 1" by (simp add: initialState_def)
    moreover have "currentIndex initialState + length (take k guesses) < length answers"
      using that assms(2) by (simp add: initialState_def)
    ultimately obtain s where "play answers initialState (take k guesses) = Inr s"
      "isDone s = isDone initialState" "currentIndex s = currentIndex initialState + length (take k guesses)"
      using play_before_last by blast
    then show ?thesis using that assms(2) by (auto simp: initialState_def)
  qed
  show ?thesis using a b by blast
qed

theorem session_complete_after_all_guesses_witness:
  "catalog \<noteq> []
   \<and> length (map (\<lambda>l. (lat l, lon l)) catalog) = length catalog
   \<and> (\<exists>s. play catalog initialState (map (\<lambda>l. (lat l, lon l)) catalog) = Inr s
          \<and> isDone s = 1 \<and> totalScore s = 250
          \<and> score s = Str ''You won with a score of 250!'')
   \<and> 2 < length catalog
   \<and> (\<exists>s. play catalog initialState (take 2 (map (\<lambda>l. (lat l, lon l)) catalog)) = Inr s
          \<and> isDone s = 0 \<and> currentIndex s = 2)"
proof -
  let ?G = "map (\<lambda>l. (lat l, lon l)) catalog"
  have ne: "catalog \<noteq> []" by (simp add: catalog_def)
  have len: "length ?G = length catalog" by simp
  have two: "2 < length catalog" by (simp add: catalog_def)
  have sum: "(\<Sum>k<length catalog. roundScoreOf catalog k (?G ! k)) = 250"
    by (simp add: catalog_def roundScoreOf_def lessThan_Suc eval_nat_numeral
        haversineDistance_self calculateScore_zero)
  have str: "Number_toString 250 = ''250''"
    by (simp add: Number_toString_def digits.simps digit_char_def)
  note all = session_complete_after_all_guesses[OF ne len]
  from all obtain s where
    "play catalog initialState ?G = Inr s" "isDone s = 1"
    "totalScore s = (\<Sum>k<length catalog. roundScoreOf catalog k (?G ! k))"
    "score s = Str (''You won with a score of '' @ Number_toString (totalScore s) @ ''!'')"
    by blast
  then have fin: "play catalog initialState ?G = Inr s \<and> isDone s = 1 \<and> totalScore s = 250
          \<and> score s = Str ''You won with a score of 250!''"
    using sum str by simp
  from all two have mid: "\<exists>s. play catalog initialState (take 2 ?G) = Inr s
          \<and> isDone s = 0 \<and> currentIndex s = 2"
    by blast
  show ?thesis using ne len two fin mid by blast
qed

text \<open>
  C2. A call of \<open>handleGuess\<close> while \<open>isDone = 1\<close> returns normally and leaves every field
  of the state as it was.
\<close>

theorem handleGuess_done_noop: "isDone s = 1 \<Longrightarrow> handleGuess answers s playerLat playerLon = Inr s"
  by (simp add: handleGuess_def)

theorem handleGuess_done_noop_witness:
  "isDone (initialState\<lparr>isDone := 1\<rparr>) = 1
   \<and> handleGuess catalog (initialState\<lparr>isDone := 1\<rparr>) 10 20 = Inr (initialState\<lparr>isDone := 1\<rparr>)"
  using handleGuess_done_noop[of "initialState\<lparr>isDone := 1\<rparr>" catalog 10 20] by simp

text \<open>
  C9. With a catalog that is not empty, every state reached from the initial one by calls
  of \<open>handleGuess\<close> has, as long as \<open>isDone \<noteq> 1\<close>, a \<open>currentIndex\<close> below the length of
  the catalog; and every call of \<open>handleGuess\<close> on a state with this property returns a
  state with it.
\<close>

theorem currentIndex_valid: "(answers \<noteq> [] \<longrightarrow> reachable answers s \<longrightarrow> index_valid answers s)
  \<and> (index_valid answers s \<longrightarrow>
       (\<exists>s'. handleGuess answers s playerLat playerLon = Inr s' \<and> index_valid answers s'))"
  using reachable_valid handleGuess_preserves by blast

theorem currentIndex_valid_witness:
  "catalog \<noteq> [] \<and> reachable catalog initialState \<and> index_valid catalog initialState
   \<and> isDone initialState \<noteq> 1 \<and> currentIndex initialState < length catalog
   \<and> (\<exists>s'. handleGuess catalog initialState 0 0 = Inr s' \<and> index_valid catalog s')"
proof -
  have ne: "catalog \<noteq> []" by (simp add: catalog_def)
  have r: "reachable catalog initialState" by (rule reach_init)
  have v: "index_valid catalog initialState"
    using currentIndex_valid[of catalog initialState 0 0] ne r by blast
  have "\<exists>s'. handleGuess catalog initialState 0 0 = Inr s' \<and> index_valid catalog s'"
    using currentIndex_valid[of catalog initialState 0 0] v by blast
  then show ?thesis using ne r v by (simp add: initialState_def catalog_def)
qed

section \<open>Bounds for the transcendental functions\<close>

text \<open>
  Rational enclosures of \<open>pi\<close>, \<open>sin\<close>, \<open>cos\<close>, \<open>arctan\<close> and \<open>exp\<close> from their
  series, with the remainder bounded.
\<close>

lemma arctan_partial_sums:
  assumes "0 < x" "x \<le> 1"
  shows "(\<Sum>i<2 * n. (- 1) ^ i * (1 / real (i * 2 + 1) * x ^ (i * 2 + 1))) \<le> arctan x"
    and "arctan x \<le> (\<Sum>i<2 * n + 1. (- 1) ^ i * (1 / real (i * 2 + 1) * x ^ (i * 2 + 1)))"
proof -
  have ax: "\<bar>x\<bar> \<le> 1" using assms by simp
  have pos: "0 < 1 / real (0 * 2 + 1) * x ^ (0 * 2 + 1)" using assms by simp
  from summable_Leibniz(2)[OF zeroseq_arctan_series[OF ax] monoseq_arctan_series[OF ax]] pos
  have "(\<Sum>i. (- 1) ^ i * (1 / real (i * 2 + 1) * x ^ (i * 2 + 1)))
      \<in> {\<Sum>i<2 * n. (- 1) ^ i * (1 / real (i * 2 + 1) * x ^ (i * 2 + 1)) ..
         \<Sum>i<2 * n + 1. (- 1) ^ i * (1 / real (i * 2 + 1) * x ^ (i * 2 + 1))}"
    by blast
  then show "(\<Sum>i<2 * n. (- 1) ^ i * (1 / real (i * 2 + 1) * x ^ (i * 2 + 1))) \<le> arctan x"
    and "arctan x \<le> (\<Sum>i<2 * n + 1. (- 1) ^ i * (1 / real (i * 2 + 1) * x ^ (i * 2 + 1)))"
    using arctan_series[OF ax] by simp_all
qed

lemma arctan_lower3: "0 < x \<Longrightarrow> x \<le> 1 \<Longrightarrow> x - x ^ 3 / 3 \<le> arctan x"
  using arctan_partial_sums(1)[of x 1] by (simp add: lessThan_Suc eval_nat_numeral)

lemma arctan_upper5: "0 < x \<Longrightarrow> x \<le> 1 \<Longrightarrow> arctan x \<le> x - x ^ 3 / 3 + x ^ 5 / 5"
  using arctan_partial_sums(2)[of x 1] by (simp add: lessThan_Suc eval_nat_numeral)

lemma arctan_lower7:
  "0 < x \<Longrightarrow> x \<le> 1 \<Longrightarrow> x - x ^ 3 / 3 + x ^ 5 / 5 - x ^ 7 / 7 \<le> arctan x"
  using arctan_partial_sums(1)[of x 2] by (simp add: lessThan_Suc eval_nat_numeral)

lemma arctan_upper9:
  "0 < x \<Longrightarrow> x \<le> 1 \<Longrightarrow>
     arctan x \<le> x - x ^ 3 / 3 + x ^ 5 / 5 - x ^ 7 / 7 + x ^ 9 / 9"
  using arctan_partial_sums(2)[of x 2] by (simp add: lessThan_Suc eval_nat_numeral)

lemma pi_bounds: "3.14159 < pi" "pi < 3.1416"
proof -
  have l5: "1 / 5 - (1 / 5) ^ 3 / 3 + (1 / 5) ^ 5 / 5 - (1 / 5) ^ 7 / 7 \<le> arctan (1 / 5)"
    by (rule arctan_lower7) simp_all
  have u5: "arctan (1 / 5) \<le> 1 / 5 - (1 / 5) ^ 3 / 3 + (1 / 5) ^ 5 / 5 - (1 / 5) ^ 7 / 7 + (1 / 5) ^ 9 / 9"
    by (rule arctan_upper9) simp_all
  have l239: "1 / 239 - (1 / 239) ^ 3 / 3 \<le> arctan (1 / 239)"
    by (rule arctan_lower3) simp_all
  have u239: "arctan (1 / 239) \<le> 1 / 239 - (1 / 239) ^ 3 / 3 + (1 / 239) ^ 5 / 5"
    by (rule arctan_upper5) simp_all
  have m: "pi = 4 * (4 * arctan (1 / 5) - arctan (1 / 239))"
    using machin by simp
  have l5': "0.1973955 \<le> arctan (1 / 5)"
    by (rule order_trans[OF _ l5]) (simp add: power_divide)
  have u5': "arctan (1 / 5) \<le> 0.1973956"
    by (rule order_trans[OF u5]) (simp add: power_divide)
  have l239': "0.004184 \<le> arctan (1 / 239)"
    by (rule order_trans[OF _ l239]) (simp add: power_divide)
  have u239': "arctan (1 / 239) \<le> 0.0041842"
    by (rule order_trans[OF u239]) (simp add: power_divide)
  show "3.14159 < pi" using l5' u239' unfolding m by simp
  show "pi < 3.1416" using u5' l239' unfolding m by simp
qed

lemma sum5: "(\<Sum>m<5. f m) = f 0 + f 1 + f 2 + f 3 + (f (4::nat) :: real)"
  by (simp add: eval_nat_numeral lessThan_Suc)

lemma sum8: "(\<Sum>m<8. f m) = f 0 + f 1 + f 2 + f 3 + f 4 + f 5 + f 6 + (f (7::nat) :: real)"
  by (simp add: eval_nat_numeral lessThan_Suc)

lemma sin_interval:
  fixes x :: real
  assumes "0 \<le> l" "l \<le> x" "x \<le> u"
  shows "l - u ^ 3 / 6 - u ^ 5 / 120 \<le> sin x"
    and "sin x \<le> u - l ^ 3 / 6 + u ^ 5 / 120"
proof -
  have x0: "0 \<le> x" using assms by simp
  have "\<bar>sin x - (\<Sum>m<5. sin_coeff m * x ^ m)\<bar> \<le> inverse (fact 5) * \<bar>x\<bar> ^ 5"
    by (rule Maclaurin_sin_bound)
  moreover have "(\<Sum>m<5. sin_coeff m * x ^ m) = x - x ^ 3 / 6"
    unfolding sum5 by (simp add: sin_coeff_def fact_numeral)
  ultimately have b: "\<bar>sin x - (x - x ^ 3 / 6)\<bar> \<le> x ^ 5 / 120"
    using x0 by (simp add: fact_numeral)
  have p3u: "x ^ 3 \<le> u ^ 3" using x0 assms(3) by (rule power_mono[rotated])
  have p3l: "l ^ 3 \<le> x ^ 3" using assms(1,2) by (rule power_mono[rotated])
  have p5u: "x ^ 5 \<le> u ^ 5" using x0 assms(3) by (rule power_mono[rotated])
  show "l - u ^ 3 / 6 - u ^ 5 / 120 \<le> sin x" using b p3u p5u assms(2) by linarith
  show "sin x \<le> u - l ^ 3 / 6 + u ^ 5 / 120" using b p3l p5u assms(3) by linarith
qed

lemma cos_interval:
  fixes x :: real
  assumes "0 \<le> l" "l \<le> x" "x \<le> u"
  shows "1 - u ^ 2 / 2 + l ^ 4 / 24 - u ^ 6 / 720 - u ^ 8 / 40320 \<le> cos x"
    and "cos x \<le> 1 - l ^ 2 / 2 + u ^ 4 / 24 - l ^ 6 / 720 + u ^ 8 / 40320"
proof -
  have x0: "0 \<le> x" using assms by simp
  obtain t where
    e: "cos x = (\<Sum>m<8. cos_coeff m * x ^ m) + (cos (t + 1 / 2 * real (8::nat) * pi) / fact 8) * x ^ 8"
    using Maclaurin_cos_expansion[of x 8] by blast
  have s: "(\<Sum>m<8. cos_coeff m * x ^ m) = 1 - x ^ 2 / 2 + x ^ 4 / 24 - x ^ 6 / 720"
    unfolding sum8 by (simp add: cos_coeff_def fact_numeral)
  define r where "r = cos (t + 1 / 2 * real (8::nat) * pi)"
  have r: "\<bar>r\<bar> \<le> 1" unfolding r_def by (rule abs_cos_le_one)
  have x8: "0 \<le> x ^ 8" using x0 by simp
  have "\<bar>r * x ^ 8\<bar> \<le> 1 * x ^ 8"
    unfolding abs_mult using r x8 by (intro mult_mono) simp_all
  then have b: "\<bar>cos x - (1 - x ^ 2 / 2 + x ^ 4 / 24 - x ^ 6 / 720)\<bar> \<le> x ^ 8 / 40320"
    unfolding e s r_def[symmetric] by (simp add: fact_numeral field_simps)
  have p2u: "x ^ 2 \<le> u ^ 2" using x0 assms(3) by (rule power_mono[rotated])
  have p2l: "l ^ 2 \<le> x ^ 2" using assms(1,2) by (rule power_mono[rotated])
  have p4u: "x ^ 4 \<le> u ^ 4" using x0 assms(3) by (rule power_mono[rotated])
  have p4l: "l ^ 4 \<le> x ^ 4" using assms(1,2) by (rule power_mono[rotated])
  have p6u: "x ^ 6 \<le> u ^ 6" using x0 assms(3) by (rule power_mono[rotated])
  have p6l: "l ^ 6 \<le> x ^ 6" using assms(1,2) by (rule power_mono[rotated])
  have p8u: "x ^ 8 \<le> u ^ 8" using x0 assms(3) by (rule power_mono[rotated])
  show "1 - u ^ 2 / 2 + l ^ 4 / 24 - u ^ 6 / 720 - u ^ 8 / 40320 \<le> cos x"
    using b p2u p4l p6u p8u by linarith
  show "cos x \<le> 1 - l ^ 2 / 2 + u ^ 4 / 24 - l ^ 6 / 720 + u ^ 8 / 40320"
    using b p2l p4u p6l p8u by linarith
qed

lemma sin_between:
  fixes x :: real
  assumes "0 \<le> l" "l \<le> x" "x \<le> u"
    and "L \<le> l - u ^ 3 / 6 - u ^ 5 / 120" "u - l ^ 3 / 6 + u ^ 5 / 120 \<le> U"
  shows "L \<le> sin x \<and> sin x \<le> U"
  using sin_interval[OF assms(1,2,3)] assms(4,5) by linarith

lemma cos_between:
  fixes x :: real
  assumes "0 \<le> l" "l \<le> x" "x \<le> u"
    and "L \<le> 1 - u ^ 2 / 2 + l ^ 4 / 24 - u ^ 6 / 720 - u ^ 8 / 40320"
    and "1 - l ^ 2 / 2 + u ^ 4 / 24 - l ^ 6 / 720 + u ^ 8 / 40320 \<le> U"
  shows "L \<le> cos x \<and> cos x \<le> U"
  using cos_interval[OF assms(1,2,3)] assms(4,5) by linarith


section \<open>The scenario of section 8: target Plains of Abraham, guess at the Seaway start\<close>

lemma sin_dphi_half:
  "0.03411530 \<le> sin (3.910089 * pi / 360) \<and> sin (3.910089 * pi / 360) \<le> 0.03411543"
  by (rule sin_between[where l = "0.03412193" and u = "0.03412205"])
     (use pi_bounds in \<open>simp_all add: power_divide\<close>)

lemma sin_dlam_half:
  "0.07003376 \<le> sin (8.031864 * pi / 360) \<and> sin (8.031864 * pi / 360) \<le> 0.07003403"
  by (rule sin_between[where l = "0.07009117" and u = "0.07009140"])
     (use pi_bounds in \<open>simp_all add: power_divide\<close>)

lemma cos_phi1:
  "0.6845165 \<le> cos (46.8015 * pi / 180) \<and> cos (46.8015 * pi / 180) \<le> 0.6845289"
  by (rule cos_between[where l = "0.81683957" and u = "0.81684218"])
     (use pi_bounds in \<open>simp_all add: power_divide\<close>)

lemma cos_phi2:
  "0.7326386 \<le> cos (42.891411 * pi / 180) \<and> cos (42.891411 * pi / 180) \<le> 0.7326456"
  by (rule cos_between[where l = "0.74859571" and u = "0.74859810"])
     (use pi_bounds in \<open>simp_all add: power_divide\<close>)

lemma scenario_distance_unfold:
  "haversineDistance 46.8015 (- 71.2201) 42.891411 (- 79.251964)
     = 12742 * atan2 (sqrt scenario_a) (sqrt (1 - scenario_a))"
proof -
  have e1: "(42.891411 - 46.8015) * pi / 180 / 2 = - (3.910089 * pi / 360 :: real)"
    by simp
  have e2: "(- 79.251964 - - 71.2201) * pi / 180 / 2 = - (8.031864 * pi / 360 :: real)"
    by simp
  show ?thesis
    unfolding haversineDistance_def Let_def e1 e2 scenario_a_def sin_minus
    by simp
qed

lemma hav_a_interval:
  fixes s1 s2 c1 c2 :: real
  assumes "0 \<le> s1l" "s1l \<le> s1" "s1 \<le> s1u"
    and "0 \<le> c1l" "c1l \<le> c1" "c1 \<le> c1u"
    and "0 \<le> c2l" "c2l \<le> c2" "c2 \<le> c2u"
    and "0 \<le> s2l" "s2l \<le> s2" "s2 \<le> s2u"
  shows "s1l * s1l + c1l * c2l * s2l * s2l \<le> s1 * s1 + c1 * c2 * s2 * s2"
    and "s1 * s1 + c1 * c2 * s2 * s2 \<le> s1u * s1u + c1u * c2u * s2u * s2u"
proof -
  have p: "0 \<le> s1" "0 \<le> c1" "0 \<le> c2" "0 \<le> s2" using assms by linarith+
  have cl: "c1l * c2l \<le> c1 * c2" using assms p by (intro mult_mono) simp_all
  have cu: "c1 * c2 \<le> c1u * c2u" using assms p by (intro mult_mono) simp_all
  have csl: "c1l * c2l * s2l \<le> c1 * c2 * s2" using assms p cl by (intro mult_mono) simp_all
  have csu: "c1 * c2 * s2 \<le> c1u * c2u * s2u" using assms p cu by (intro mult_mono) simp_all
  have cssl: "c1l * c2l * s2l * s2l \<le> c1 * c2 * s2 * s2"
    using assms p csl by (intro mult_mono) simp_all
  have cssu: "c1 * c2 * s2 * s2 \<le> c1u * c2u * s2u * s2u"
    using assms p csu by (intro mult_mono) simp_all
  have ssl: "s1l * s1l \<le> s1 * s1" using assms p by (intro mult_mono) simp_all
  have ssu: "s1 * s1 \<le> s1u * s1u" using assms p by (intro mult_mono) simp_all
  show "s1l * s1l + c1l * c2l * s2l * s2l \<le> s1 * s1 + c1 * c2 * s2 * s2"
    using ssl cssl by linarith
  show "s1 * s1 + c1 * c2 * s2 * s2 \<le> s1u * s1u + c1u * c2u * s2u * s2u"
    using ssu cssu by linarith
qed

lemma scenario_a_bounds: "0.00362359 \<le> scenario_a" "scenario_a \<le> 0.00362369"
proof -
  note s1 = sin_dphi_half and s2 = sin_dlam_half and c1 = cos_phi1 and c2 = cos_phi2
  have l: "0.03411530 * 0.03411530 + 0.6845165 * 0.7326386 * 0.07003376 * 0.07003376 \<le> scenario_a"
    unfolding scenario_a_def
    by (rule hav_a_interval(1)[where ?s1u = "0.03411543" and ?c1u = "0.6845289"
          and ?c2u = "0.7326456" and ?s2u = "0.07003403"])
       (use s1 s2 c1 c2 in simp_all)
  have u: "scenario_a \<le> 0.03411543 * 0.03411543 + 0.6845289 * 0.7326456 * 0.07003403 * 0.07003403"
    unfolding scenario_a_def
    by (rule hav_a_interval(2)[where ?s1l = "0.03411530" and ?c1l = "0.6845165"
          and ?c2l = "0.7326386" and ?s2l = "0.07003376"])
       (use s1 s2 c1 c2 in simp_all)
  show "0.00362359 \<le> scenario_a" by (rule order_trans[OF _ l]) simp
  show "scenario_a \<le> 0.00362369" by (rule order_trans[OF u]) simp
qed

lemma scenario_atan2:
  "atan2 (sqrt scenario_a) (sqrt (1 - scenario_a)) = arctan (sqrt (scenario_a / (1 - scenario_a)))"
proof -
  have "0 < sqrt (1 - scenario_a)" using scenario_a_bounds(2) by simp
  then show ?thesis by (simp add: atan2_def real_sqrt_divide)
qed

lemma scenario_t_bounds:
  "0.0603056 \<le> sqrt (scenario_a / (1 - scenario_a))"
  "sqrt (scenario_a / (1 - scenario_a)) \<le> 0.0603065"
proof -
  have pos: "0 < 1 - scenario_a" using scenario_a_bounds(2) by simp
  have "0.0603056\<^sup>2 * (1 - scenario_a) \<le> scenario_a"
    using scenario_a_bounds(1) by (simp add: power2_eq_square)
  then have "0.0603056\<^sup>2 \<le> scenario_a / (1 - scenario_a)"
    using pos by (simp add: pos_le_divide_eq)
  then show "0.0603056 \<le> sqrt (scenario_a / (1 - scenario_a))"
    by (rule real_le_rsqrt)
  have "scenario_a \<le> 0.0603065\<^sup>2 * (1 - scenario_a)"
    using scenario_a_bounds(2) by (simp add: power2_eq_square)
  then have "scenario_a / (1 - scenario_a) \<le> 0.0603065\<^sup>2"
    using pos by (simp add: pos_divide_le_eq)
  then show "sqrt (scenario_a / (1 - scenario_a)) \<le> 0.0603065"
    by (intro real_le_lsqrt) simp_all
qed

lemma scenario_arctan_bounds:
  "0.06023249 \<le> arctan (sqrt (scenario_a / (1 - scenario_a)))"
  "arctan (sqrt (scenario_a / (1 - scenario_a))) \<le> 0.06023356"
proof -
  have "0.0603056 - 0.0603056 ^ 3 / 3 \<le> arctan (0.0603056 :: real)"
    by (rule arctan_lower3) simp_all
  moreover have "arctan (0.0603056 :: real) \<le> arctan (sqrt (scenario_a / (1 - scenario_a)))"
    using scenario_t_bounds(1) by (rule arctan_monotone')
  moreover have "(0.06023249 :: real) \<le> 0.0603056 - 0.0603056 ^ 3 / 3"
    by (simp add: power_divide)
  ultimately show "0.06023249 \<le> arctan (sqrt (scenario_a / (1 - scenario_a)))"
    by linarith
  have "arctan (0.0603065 :: real) \<le> 0.0603065 - 0.0603065 ^ 3 / 3 + 0.0603065 ^ 5 / 5"
    by (rule arctan_upper5) simp_all
  moreover have "arctan (sqrt (scenario_a / (1 - scenario_a))) \<le> arctan (0.0603065 :: real)"
    using scenario_t_bounds(2) by (rule arctan_monotone')
  moreover have "0.0603065 - 0.0603065 ^ 3 / 3 + 0.0603065 ^ 5 / 5 \<le> (0.06023356 :: real)"
    by (simp add: power_divide)
  ultimately show "arctan (sqrt (scenario_a / (1 - scenario_a))) \<le> 0.06023356"
    by linarith
qed

lemma scenario_distance_bounds:
  "767.4 < haversineDistance 46.8015 (- 71.2201) 42.891411 (- 79.251964)"
  "haversineDistance 46.8015 (- 71.2201) 42.891411 (- 79.251964) < 767.6"
  unfolding scenario_distance_unfold scenario_atan2
  using scenario_arctan_bounds by simp_all

lemma sum10:
  "(\<Sum>m<10. f m) = f 0 + f 1 + f 2 + f 3 + f 4 + f 5 + f 6 + f 7 + f 8 + (f (9::nat) :: real)"
  by (simp add: eval_nat_numeral lessThan_Suc)

lemma exp_partial_sum_le:
  fixes x :: real
  assumes "0 \<le> x"
  shows "(\<Sum>m<n. x ^ m / fact m) \<le> exp x"
proof -
  obtain t where e: "exp x = (\<Sum>m<n. x ^ m / fact m) + exp t / fact n * x ^ n"
    using Maclaurin_exp_le[of x n] by blast
  have "0 \<le> exp t / fact n * x ^ n" using assms by simp
  then show ?thesis using e by linarith
qed

lemma exp_2414_lower: "11.12 \<le> exp (2.414 :: real)"
proof -
  have "(\<Sum>m<10. (2.414 :: real) ^ m / fact m) \<le> exp 2.414"
    by (rule exp_partial_sum_le) simp
  moreover have "(11.12 :: real) \<le> (\<Sum>m<10. 2.414 ^ m / fact m)"
    unfolding sum10 by (simp add: fact_numeral power_divide)
  ultimately show ?thesis by linarith
qed

lemma exp_242_upper: "exp (2.42 :: real) \<le> 14"
proof -
  have "exp (0.15125 :: real) \<le> 1 + 0.15125 + 0.15125\<^sup>2"
    by (rule exp_bound) simp_all
  then have "exp (0.15125 :: real) \<le> 1.1742"
    by (simp add: power_divide)
  then have "exp (0.15125 :: real) ^ 16 \<le> 1.1742 ^ 16"
    by (intro power_mono) simp_all
  moreover have "exp (2.42 :: real) = exp 0.15125 ^ 16"
    using exp_of_nat_mult[of 16 "0.15125 :: real"] by simp
  moreover have "(1.1742 :: real) ^ 16 \<le> 14"
    by (simp add: power_divide)
  ultimately show ?thesis by linarith
qed

lemma calculateScore_767_768:
  assumes "767 \<le> d" "d \<le> 768"
  shows "calculateScore d None = 4"
proof -
  define y where "y = 10 * d / 3176.862"
  have yl: "2.414 \<le> y" using assms(1) by (simp add: y_def)
  have yu: "y \<le> 2.42" using assms(2) by (simp add: y_def)
  have el: "11.12 \<le> exp y" using exp_2414_lower yl
    by (meson exp_le_cancel_iff order_trans)
  have eu: "exp y \<le> 14" using exp_242_upper yu
    by (meson exp_le_cancel_iff order_trans)
  have inv: "exp (- y) = 1 / exp y" by (rule exp_minus')
  have u: "50 * exp (- y) < 4.5"
  proof -
    have "50 < 4.5 * exp y" using el by simp
    then show ?thesis unfolding inv by (simp add: field_simps)
  qed
  have l: "3.5 \<le> 50 * exp (- y)"
  proof -
    have "3.5 * exp y \<le> 50" using eu by simp
    then show ?thesis unfolding inv by (simp add: field_simps)
  qed
  have "\<lfloor>50 * exp (- y) + 1 / 2\<rfloor> = 4"
    using l u by (intro floor_unique) simp_all
  moreover have "- 10 * d / 3176.862 = - y" by (simp add: y_def)
  ultimately show ?thesis
    by (simp add: calculateScore_def Math_round_def)
qed


text \<open>
  C5, as the code computes it. For target (46.8015, -71.2201) and guess
  (42.891411, -79.251964) the distance lies between 767.4 km and 767.6 km, and the score
  of that distance is 4.
\<close>

theorem scenario_distance_and_score:
  "767.4 < haversineDistance 46.8015 (- 71.2201) 42.891411 (- 79.251964)
   \<and> haversineDistance 46.8015 (- 71.2201) 42.891411 (- 79.251964) < 767.6
   \<and> calculateScore (haversineDistance 46.8015 (- 71.2201) 42.891411 (- 79.251964)) None = 4"
proof -
  note b = scenario_distance_bounds
  have "calculateScore (haversineDistance 46.8015 (- 71.2201) 42.891411 (- 79.251964)) None = 4"
    by (rule calculateScore_767_768) (use b in linarith)+
  then show ?thesis using b by simp
qed


text \<open>
  C5, as the specification states it, does not hold: the distance is not within 60 km of
  706 km, and the score is not within one point of 6.
\<close>

theorem scenario_706_counterexample:
  "\<not> (\<bar>haversineDistance 46.8015 (- 71.2201) 42.891411 (- 79.251964) - 706\<bar> \<le> 60
      \<or> \<bar>calculateScore (haversineDistance 46.8015 (- 71.2201) 42.891411 (- 79.251964)) None - 6\<bar> \<le> 1)"
proof -
  note b = scenario_distance_bounds
  have "calculateScore (haversineDistance 46.8015 (- 71.2201) 42.891411 (- 79.251964)) None = 4"
    by (rule calculateScore_767_768) (use b in linarith)+
  then show ?thesis using b by simp
qed

end
